theory Spec2Isabelle
  imports Complex_Main "HOL-Library.AList"
begin

section \<open>JavaScript values\<close>

text \<open>
  The values that travel through both files: what \<^verbatim>\<open>JSON.parse\<close> and
  \<^verbatim>\<open>res.json()\<close> produce, what the transformer serializes, and
  \<^verbatim>\<open>undefined\<close>. A number is a double: NaN, an infinity or a finite
  value. An object is the ordered list of its own properties; a property key is a string.
\<close>

datatype jsnum = NaN | PosInfinity | NegInfinity | Finite rat

datatype jsval =
    Undefined
  | Null
  | Bool bool
  | Num jsnum
  | Str string
  | Arr "jsval list"
  | Obj "(string \<times> jsval) list"

text \<open>\<^verbatim>\<open>Array.isArray(v)\<close>.\<close>

fun Array_isArray :: "jsval \<Rightarrow> bool" where
  "Array_isArray (Arr xs) = True"
| "Array_isArray v = False"

text \<open>\<^verbatim>\<open>obj[key]\<close> on an object: the property's value, or \<^verbatim>\<open>undefined\<close>.\<close>

definition get_prop :: "(string \<times> jsval) list \<Rightarrow> string \<Rightarrow> jsval" where
  "get_prop fields key = (case map_of fields key of None \<Rightarrow> Undefined | Some v \<Rightarrow> v)"

text \<open>\<^verbatim>\<open>obj[key] = v\<close>: overwrites the property in place, or adds it last.\<close>

definition set_prop :: "(string \<times> jsval) list \<Rightarrow> string \<Rightarrow> jsval \<Rightarrow> (string \<times> jsval) list" where
  "set_prop fields key v = AList.update key v fields"

text \<open>\<^verbatim>\<open>xs.join(sep)\<close> on an array of strings.\<close>

fun join :: "string \<Rightarrow> string list \<Rightarrow> string" where
  "join sep [] = []"
| "join sep [x] = x"
| "join sep (x # y # ys) = x @ sep @ join sep (y # ys)"

text \<open>The procedure types, and the string each one is on the wire.\<close>

datatype procedure_type = Query | Mutation | Subscription

fun type_name :: "procedure_type \<Rightarrow> string" where
  "type_name Query = ''query''"
| "type_name Mutation = ''mutation''"
| "type_name Subscription = ''subscription''"

section \<open>The batch link: \<^verbatim>\<open>httpBatchLink.ts\<close>\<close>

text \<open>An operation as the link receives it; \<^verbatim>\<open>method\<close> is optional.\<close>

record operation =
  op_id :: nat
  op_type :: procedure_type
  op_method :: "procedure_type option"
  op_path :: string
  op_input :: jsval

subsection \<open>\<^verbatim>\<open>fetcher\<close>: the continuation on the combined response\<close>

text \<open>
  \<^verbatim>\<open>promise.then((res) => { if (!Array.isArray(res)) { return keyInputPairs.map(() => res); } return res; })\<close>.
  The result is the array the batch loader resolves its window from: position \<open>i\<close> is
  the value of window entry \<open>i\<close>.
\<close>

definition fetcher_then :: "operation list \<Rightarrow> jsval \<Rightarrow> jsval list" where
  "fetcher_then keyInputPairs res =
     (case res of
        Arr elements \<Rightarrow> elements
      | _ \<Rightarrow> map (\<lambda>_. res) keyInputPairs)"

section \<open>The request executor: \<^verbatim>\<open>httpRequest\<close>\<close>

subsection \<open>\<^verbatim>\<open>arrayToDict\<close>\<close>

text \<open>
  \<^verbatim>\<open>dict[index] = element\<close> turns the index into a property key: its decimal
  numeral.
\<close>

definition digit_char :: "nat \<Rightarrow> char" where
  "digit_char d = char_of (48 + d)"

fun index_key :: "nat \<Rightarrow> string" where
  "index_key n =
     (if n < 10 then [digit_char n]
      else index_key (n div 10) @ [digit_char (n mod 10)])"

declare index_key.simps [simp del]

text \<open>
  \<^verbatim>\<open>for (let index = 0; index < array.length; index++) { dict[index] = array[index]; }\<close>
\<close>

function arrayToDict_loop ::
  "jsval list \<Rightarrow> nat \<Rightarrow> (string \<times> jsval) list \<Rightarrow> (string \<times> jsval) list" where
  "arrayToDict_loop array index dict =
     (if index < length array
      then arrayToDict_loop array (Suc index) (set_prop dict (index_key index) (array ! index))
      else dict)"
  by pat_completeness auto
termination
  by (relation "measure (\<lambda>(array, index, dict). length array - index)") auto

declare arrayToDict_loop.simps [simp del]

definition arrayToDict :: "jsval list \<Rightarrow> jsval" where
  "arrayToDict array = Obj (arrayToDict_loop array 0 [])"

subsection \<open>The request's properties and the runtime\<close>

text \<open>
  \<^verbatim>\<open>props\<close> carries either \<^verbatim>\<open>input\<close> or \<^verbatim>\<open>inputs\<close>.
\<close>

datatype payload = Input jsval | Inputs "jsval list"

record props =
  props_url :: string
  props_path :: string
  props_type :: procedure_type
  props_method :: procedure_type
  props_payload :: payload

text \<open>How an awaited call of a collaborator ends: fulfilled, rejected, or never.\<close>

datatype 'a outcome = Resolves 'a | Rejects jsval | Never

text \<open>A value of \<^verbatim>\<open>rawHeaders\<close>: a string, an array of strings or undefined.\<close>

datatype header_value = HeaderUndefined | HeaderString string | HeaderArray "string list"

text \<open>
  The second argument of \<^verbatim>\<open>rt.fetch\<close>. \<^verbatim>\<open>signal\<close> is
  \<^verbatim>\<open>ac?.signal\<close>: absent without a controller, otherwise the controller's signal
  with the aborted flag that the fetch sees on it. \<^verbatim>\<open>headers\<close> is an object that
  is read by key: a map from header name to value.
\<close>

record request_init =
  init_method :: "string option"
  init_signal :: "bool option"
  init_body :: "string option"
  init_headers :: "string \<rightharpoonup> string"

text \<open>
  The injected runtime: \<^verbatim>\<open>rt.transformer.serialize\<close>;
  \<^verbatim>\<open>rt.AbortController\<close>, which is unset (\<open>None\<close>) or a constructor, given by
  the \<^verbatim>\<open>abort\<close> method of its instances (from the aborted flag of the signal to the
  new flag, or to the exception it throws); what \<^verbatim>\<open>rt.headers()\<close> settles to; and
  \<^verbatim>\<open>rt.fetch\<close>, whose response is modelled by what its \<^verbatim>\<open>json()\<close>
  settles to.
\<close>

record runtime =
  rt_serialize :: "jsval \<Rightarrow> jsval"
  rt_AbortController :: "(bool \<Rightarrow> jsval + bool) option"
  rt_headers :: "(string \<times> header_value) list outcome"
  rt_fetch :: "string \<Rightarrow> request_init \<Rightarrow> jsval outcome outcome"

text \<open>The built-ins \<^verbatim>\<open>JSON.stringify\<close> and \<^verbatim>\<open>encodeURIComponent\<close>.\<close>

record builtins =
  JSON_stringify :: "jsval \<Rightarrow> string"
  encodeURIComponent :: "string \<Rightarrow> string"

text \<open>
  \<^verbatim>\<open>'input' in props ? rt.transformer.serialize(props.input)
    : arrayToDict(props.inputs.map((_input) => rt.transformer.serialize(_input)))\<close>
\<close>

definition request_input :: "runtime \<Rightarrow> props \<Rightarrow> jsval" where
  "request_input rt p =
     (case props_payload p of
        Input i \<Rightarrow> rt_serialize rt i
      | Inputs inputs \<Rightarrow> arrayToDict (map (\<lambda>input. rt_serialize rt input) inputs))"

text \<open>\<^verbatim>\<open>'inputs' in props\<close>.\<close>

fun has_inputs :: "payload \<Rightarrow> bool" where
  "has_inputs (Inputs inputs) = True"
| "has_inputs (Input i) = False"

text \<open>The number of inputs a request carries.\<close>

fun input_count :: "payload \<Rightarrow> nat" where
  "input_count (Inputs inputs) = length inputs"
| "input_count (Input i) = 1"

subsection \<open>\<^verbatim>\<open>getUrl\<close> and \<^verbatim>\<open>getBody\<close>\<close>

text \<open>The three conditional \<^verbatim>\<open>queryParts.push\<close> calls, in order.\<close>

definition queryParts :: "builtins \<Rightarrow> runtime \<Rightarrow> props \<Rightarrow> string list" where
  "queryParts js rt p =
     (let input = request_input rt p;
          parts0 = [];
          parts1 = (if props_type p \<noteq> props_method p
                    then parts0 @ [''type='' @ type_name (props_type p)] else parts0);
          parts2 = (if has_inputs (props_payload p) then parts1 @ [''batch=1''] else parts1);
          parts3 = (if props_method p = Query \<and> input \<noteq> Undefined
                    then parts2 @ [''input='' @ encodeURIComponent js (JSON_stringify js input)]
                    else parts2)
      in parts3)"

definition getUrl :: "builtins \<Rightarrow> runtime \<Rightarrow> props \<Rightarrow> string" where
  "getUrl js rt p =
     (let url = props_url p @ ''/'' @ props_path p;
          parts = queryParts js rt p
      in if length parts \<noteq> 0 then url @ ''?'' @ join ''&'' parts else url)"

definition getBody :: "builtins \<Rightarrow> runtime \<Rightarrow> props \<Rightarrow> string option" where
  "getBody js rt p =
     (if props_method p = Query then None
      else if request_input rt p \<noteq> Undefined then Some (JSON_stringify js (request_input rt p))
      else None)"

text \<open>\<^verbatim>\<open>httpMethods[method]\<close>.\<close>

fun httpMethods :: "procedure_type \<Rightarrow> string option" where
  "httpMethods Query = Some ''GET''"
| "httpMethods Mutation = Some ''POST''"
| "httpMethods Subscription = None"

subsection \<open>The abort controller, \<^verbatim>\<open>cancel\<close> and the promise\<close>

text \<open>
  \<^verbatim>\<open>const ac = rt.AbortController ? new rt.AbortController() : null\<close>: \<open>None\<close> is
  \<^verbatim>\<open>null\<close>, otherwise a controller with the aborted flag of its signal and its
  \<^verbatim>\<open>abort\<close> method.
\<close>

record controller =
  signal_aborted :: bool
  abort :: "bool \<Rightarrow> jsval + bool"

definition new_ac :: "runtime \<Rightarrow> controller option" where
  "new_ac rt =
     (case rt_AbortController rt of
        None \<Rightarrow> None
      | Some abort_method \<Rightarrow> Some \<lparr>signal_aborted = False, abort = abort_method\<rparr>)"

text \<open>
  \<^verbatim>\<open>const cancel = () => { ac?.abort(); }\<close>: the controller afterwards (\<open>Inr\<close>), or
  the exception that \<^verbatim>\<open>abort\<close> throws and \<^verbatim>\<open>cancel\<close> lets through (\<open>Inl\<close>).
\<close>

definition cancel :: "controller option \<Rightarrow> jsval + controller option" where
  "cancel ac =
     (case ac of
        None \<Rightarrow> Inr None
      | Some c \<Rightarrow>
          (case abort c (signal_aborted c) of
             Inl thrown \<Rightarrow> Inl thrown
           | Inr flag \<Rightarrow> Inr (Some (c\<lparr>signal_aborted := flag\<rparr>))))"

text \<open>\<open>n\<close> calls of \<^verbatim>\<open>cancel\<close> in a row, up to the first that throws.\<close>

fun cancel_times :: "nat \<Rightarrow> controller option \<Rightarrow> jsval + controller option" where
  "cancel_times 0 ac = Inr ac"
| "cancel_times (Suc n) ac =
     (case cancel ac of
        Inl thrown \<Rightarrow> Inl thrown
      | Inr ac' \<Rightarrow> cancel_times n ac')"

text \<open>
  The loop over \<^verbatim>\<open>rawHeaders\<close>, the properties of the object in the order of
  \<^verbatim>\<open>for ... in\<close>, that fills \<^verbatim>\<open>headers\<close>.
\<close>

fun merge_headers ::
  "(string \<times> header_value) list \<Rightarrow> (string \<rightharpoonup> string) \<Rightarrow> (string \<rightharpoonup> string)" where
  "merge_headers [] headers = headers"
| "merge_headers ((key, header) # rest) headers =
     merge_headers rest
       (case header of
          HeaderUndefined \<Rightarrow> headers
        | HeaderArray parts \<Rightarrow> headers(key \<mapsto> join '','' parts)
        | HeaderString h \<Rightarrow> headers(key \<mapsto> h))"

definition fetch_init ::
  "builtins \<Rightarrow> runtime \<Rightarrow> props \<Rightarrow> controller option \<Rightarrow> (string \<times> header_value) list \<Rightarrow>
     request_init" where
  "fetch_init js rt p ac rawHeaders =
     \<lparr>init_method = httpMethods (props_method p),
      init_signal = map_option signal_aborted ac,
      init_body = getBody js rt p,
      init_headers = merge_headers rawHeaders [''content-type'' \<mapsto> ''application/json'']\<rparr>"

text \<open>
  The promise: \<^verbatim>\<open>Promise.resolve(rt.headers()).then(fetch).then(res.json).then(resolve).catch(reject)\<close>,
  with the controller in the state \<open>ac\<close>.
\<close>

definition request_promise ::
  "builtins \<Rightarrow> runtime \<Rightarrow> props \<Rightarrow> controller option \<Rightarrow> jsval outcome" where
  "request_promise js rt p ac =
     (case rt_headers rt of
        Rejects e \<Rightarrow> Rejects e
      | Never \<Rightarrow> Never
      | Resolves rawHeaders \<Rightarrow>
          (case rt_fetch rt (getUrl js rt p) (fetch_init js rt p ac rawHeaders) of
             Rejects e \<Rightarrow> Rejects e
           | Never \<Rightarrow> Never
           | Resolves res \<Rightarrow> res))"

subsection \<open>The request of \<^verbatim>\<open>fetcher\<close>\<close>

text \<open>
  \<^verbatim>\<open>fetcher(type, method)\<close> calls \<^verbatim>\<open>httpRequest\<close> with the paths of the window
  joined by commas and the window's inputs as \<^verbatim>\<open>inputs\<close>, whatever their number.
\<close>

definition fetcher_props ::
  "string \<Rightarrow> procedure_type \<Rightarrow> procedure_type \<Rightarrow> operation list \<Rightarrow> props" where
  "fetcher_props url type method keyInputPairs =
     \<lparr>props_url = url,
      props_path = join '','' (map (\<lambda>op. op_path op) keyInputPairs),
      props_type = type,
      props_method = method,
      props_payload = Inputs (map (\<lambda>op. op_input op) keyInputPairs)\<rparr>"

section \<open>The link stage of \<^verbatim>\<open>httpBatchLink\<close>\<close>

text \<open>
  What the stage does that its surroundings see: a load on one of the four loaders
  \<^verbatim>\<open>loaders[type][method]\<close>, the registration of the teardown hook, a call of the
  downstream callback \<^verbatim>\<open>prev\<close>, and a call of the loader's \<^verbatim>\<open>cancel\<close>.
\<close>

datatype delivery = Result jsval | ClientError jsval | AbortError

datatype link_action =
    Load procedure_type procedure_type operation
  | OnDestroy
  | Prev delivery
  | Cancel

datatype link_error = SubscriptionsNotSupported

record link_state =
  isDone :: bool

text \<open>
  The synchronous part of the stage: the throw for subscriptions, otherwise
  \<^verbatim>\<open>loaders[type][method ?? type].load(op)\<close>, \<^verbatim>\<open>let isDone = false\<close> and
  \<^verbatim>\<open>onDestroy(...)\<close>.
\<close>

definition link :: "operation \<Rightarrow> link_error + (link_state \<times> link_action list)" where
  "link op =
     (if op_type op = Subscription \<or> op_method op = Some Subscription
      then Inl SubscriptionsNotSupported
      else Inr (\<lparr>isDone = False\<rparr>,
                [Load (op_type op) (case op_method op of None \<Rightarrow> op_type op | Some m \<Rightarrow> m) op,
                 OnDestroy]))"

text \<open>
  \<^verbatim>\<open>prevOnce\<close>. The callback \<open>prev\<close> is given by what it throws, if anything; the third
  component of the result is the exception that leaves \<^verbatim>\<open>prevOnce\<close>.
\<close>

definition prevOnce ::
  "(delivery \<Rightarrow> jsval option) \<Rightarrow> delivery \<Rightarrow> link_state \<Rightarrow> link_state \<times> link_action list \<times> jsval option" where
  "prevOnce prev result s =
     (if isDone s then (s, [], None)
      else (s\<lparr>isDone := True\<rparr>, [Prev result], prev result))"

text \<open>The teardown hook: \<^verbatim>\<open>prevOnce(abort); cancel();\<close>\<close>

definition destroy_hook ::
  "(delivery \<Rightarrow> jsval option) \<Rightarrow> link_state \<Rightarrow> link_state \<times> link_action list" where
  "destroy_hook prev s =
     (case prevOnce prev AbortError s of
        (s', acts, Some thrown) \<Rightarrow> (s', acts)
      | (s', acts, None) \<Rightarrow> (s', acts @ [Cancel]))"

text \<open>
  The handlers on the loader's promise. \<^verbatim>\<open>transformRPCResponse\<close> is a collaborator: it
  returns a result (\<open>Inr\<close>) or throws (\<open>Inl\<close>). An exception of the \<^verbatim>\<open>then\<close> handler goes
  to the \<^verbatim>\<open>catch\<close> handler behind it.
\<close>

definition catch_handler ::
  "(delivery \<Rightarrow> jsval option) \<Rightarrow> jsval \<Rightarrow> link_state \<Rightarrow> link_state \<times> link_action list" where
  "catch_handler prev cause s =
     (case prevOnce prev (ClientError cause) s of (s', acts, thrown) \<Rightarrow> (s', acts))"

definition then_handler ::
  "(delivery \<Rightarrow> jsval option) \<Rightarrow> (jsval \<Rightarrow> jsval + jsval) \<Rightarrow> jsval \<Rightarrow> link_state \<Rightarrow>
     link_state \<times> link_action list" where
  "then_handler prev transformRPCResponse envelope s =
     (case transformRPCResponse envelope of
        Inl cause \<Rightarrow> catch_handler prev cause s
      | Inr result \<Rightarrow>
          (case prevOnce prev (Result result) s of
             (s', acts, None) \<Rightarrow> (s', acts)
           | (s', acts, Some cause) \<Rightarrow>
               (case catch_handler prev cause s' of (s'', acts') \<Rightarrow> (s'', acts @ acts'))))"

text \<open>The ways a call is settled, and the stage's reaction to a sequence of them.\<close>

datatype settlement = Teardown | NetworkSuccess jsval | NetworkFailure jsval

fun settle ::
  "(delivery \<Rightarrow> jsval option) \<Rightarrow> (jsval \<Rightarrow> jsval + jsval) \<Rightarrow> settlement \<Rightarrow> link_state \<Rightarrow>
     link_state \<times> link_action list" where
  "settle prev transformRPCResponse Teardown s = destroy_hook prev s"
| "settle prev transformRPCResponse (NetworkSuccess envelope) s =
     then_handler prev transformRPCResponse envelope s"
| "settle prev transformRPCResponse (NetworkFailure cause) s = catch_handler prev cause s"

fun settle_all ::
  "(delivery \<Rightarrow> jsval option) \<Rightarrow> (jsval \<Rightarrow> jsval + jsval) \<Rightarrow> settlement list \<Rightarrow> link_state \<Rightarrow>
     link_state \<times> link_action list" where
  "settle_all prev transformRPCResponse [] s = (s, [])"
| "settle_all prev transformRPCResponse (e # es) s =
     (case settle prev transformRPCResponse e s of
        (s', acts) \<Rightarrow>
          (case settle_all prev transformRPCResponse es s' of
             (s'', acts') \<Rightarrow> (s'', acts @ acts')))"

text \<open>The calls of \<^verbatim>\<open>prev\<close> among the actions.\<close>

fun is_Prev :: "link_action \<Rightarrow> bool" where
  "is_Prev (Prev d) = True"
| "is_Prev a = False"

fun is_Load :: "link_action \<Rightarrow> bool" where
  "is_Load (Load t m op) = True"
| "is_Load a = False"

definition deliveries :: "link_action list \<Rightarrow> link_action list" where
  "deliveries acts = filter is_Prev acts"

text \<open>The actions of a run of the stage; a run that throws has performed none.\<close>

fun actions_of :: "link_error + (link_state \<times> link_action list) \<Rightarrow> link_action list" where
  "actions_of (Inl e) = []"
| "actions_of (Inr (s, acts)) = acts"

section \<open>The socket handler: \<^verbatim>\<open>wssHandler.ts\<close>\<close>

subsection \<open>The assertions and \<^verbatim>\<open>parseMessage\<close>\<close>

text \<open>What this file throws, and what a collaborator threw.\<close>

datatype error =
    NotAnObject
  | InvalidProcedureType
  | InvalidRequestId
  | InvalidString
  | SyntaxError
  | DuplicateId jsnum
  | Thrown jsval

text \<open>\<^verbatim>\<open>typeof v\<close> and \<^verbatim>\<open>!v\<close>.\<close>

fun typeof :: "jsval \<Rightarrow> string" where
  "typeof Undefined = ''undefined''"
| "typeof Null = ''object''"
| "typeof (Bool b) = ''boolean''"
| "typeof (Num n) = ''number''"
| "typeof (Str s) = ''string''"
| "typeof (Arr xs) = ''object''"
| "typeof (Obj members) = ''object''"

fun js_not :: "jsval \<Rightarrow> bool" where
  "js_not Undefined = True"
| "js_not Null = True"
| "js_not (Bool b) = (\<not> b)"
| "js_not (Num n) = (n = NaN \<or> n = Finite 0)"
| "js_not (Str s) = (s = [])"
| "js_not (Arr xs) = False"
| "js_not (Obj members) = False"

text \<open>\<^verbatim>\<open>isNaN\<close>, which the code reaches on numbers only.\<close>

fun isNaN :: "jsnum \<Rightarrow> bool" where
  "isNaN NaN = True"
| "isNaN n = False"

text \<open>
  Each assertion returns the narrowed value or the error it throws. In
  \<^verbatim>\<open>assertIsObject\<close> the last case cannot be reached: a value of type object that is
  neither an array nor falsy is an object with properties.
\<close>

definition assertIsObject :: "jsval \<Rightarrow> error + (string \<times> jsval) list" where
  "assertIsObject obj =
     (if typeof obj \<noteq> ''object'' \<or> Array_isArray obj \<or> js_not obj then Inl NotAnObject
      else (case obj of Obj members \<Rightarrow> Inr members | _ \<Rightarrow> Inl NotAnObject))"

definition assertIsProcedureType :: "jsval \<Rightarrow> error + procedure_type" where
  "assertIsProcedureType obj =
     (if obj \<noteq> Str ''query'' \<and> obj \<noteq> Str ''subscription'' \<and> obj \<noteq> Str ''mutation''
      then Inl InvalidProcedureType
      else Inr (if obj = Str ''query'' then Query
                else if obj = Str ''subscription'' then Subscription
                else Mutation))"

definition assertIsRequestId :: "jsval \<Rightarrow> error + jsnum" where
  "assertIsRequestId obj =
     (case obj of
        Num n \<Rightarrow> if isNaN n then Inl InvalidRequestId else Inr n
      | _ \<Rightarrow> Inl InvalidRequestId)"

definition assertIsString :: "jsval \<Rightarrow> error + string" where
  "assertIsString obj = (case obj of Str s \<Rightarrow> Inr s | _ \<Rightarrow> Inl InvalidString)"

text \<open>What \<^verbatim>\<open>parseMessage\<close> returns: a stop request or a procedure call.\<close>

datatype info =
    StopInfo jsnum
  | CallInfo procedure_type jsnum jsval string

text \<open>
  \<^verbatim>\<open>parseMessage\<close>. \<^verbatim>\<open>JSON.parse\<close> is a parameter: the value a text decodes to, or
  \<open>None\<close> where it throws.
\<close>

definition parseMessage :: "(string \<Rightarrow> jsval option) \<Rightarrow> jsval \<Rightarrow> error + info" where
  "parseMessage JSON_parse message =
     (case assertIsString message of
        Inl e \<Rightarrow> Inl e
      | Inr text \<Rightarrow>
     (case JSON_parse text of
        None \<Rightarrow> Inl SyntaxError
      | Some obj \<Rightarrow>
     (case assertIsObject obj of
        Inl e \<Rightarrow> Inl e
      | Inr members \<Rightarrow>
     (case assertIsRequestId (get_prop members ''id'') of
        Inl e \<Rightarrow> Inl e
      | Inr id' \<Rightarrow>
          if get_prop members ''method'' = Str ''stop'' then Inr (StopInfo id')
          else
     (case assertIsProcedureType (get_prop members ''method'') of
        Inl e \<Rightarrow> Inl e
      | Inr type \<Rightarrow>
     (case assertIsObject (get_prop members ''params'') of
        Inl e \<Rightarrow> Inl e
      | Inr params \<Rightarrow>
     (case assertIsString (get_prop params ''path'') of
        Inl e \<Rightarrow> Inl e
      | Inr path \<Rightarrow> Inr (CallInfo type id' (get_prop params ''input'') path))))))))"

subsection \<open>The connection\<close>

text \<open>
  The state of one connection: the map \<^verbatim>\<open>clientSubscriptions\<close> in insertion order,
  the number of \<^verbatim>\<open>'close'\<close> listeners the message handler has registered, the
  socket's \<^verbatim>\<open>readyState\<close>, and the runs of the message handler that are suspended at
  an \<^verbatim>\<open>await\<close>. A subscription is known by its identity.
\<close>

datatype ready_state = CONNECTING | OPEN | CLOSING | CLOSED

type_synonym subscription = nat

datatype suspended =
    AwaitProcedure procedure_type jsnum string jsval
  | AwaitStart jsnum

record connection =
  clientSubscriptions :: "(jsnum \<times> subscription) list"
  closeListeners :: nat
  readyState :: ready_state
  awaiting :: "suspended list"

definition new_connection :: connection where
  "new_connection =
     \<lparr>clientSubscriptions = [], closeListeners = 0, readyState = OPEN, awaiting = []\<rparr>"

text \<open>
  The collaborators of the handler: \<^verbatim>\<open>JSON.parse\<close>, the transformer's
  \<^verbatim>\<open>input.deserialize\<close> (which may throw) and \<^verbatim>\<open>output.serialize\<close>, and
  \<^verbatim>\<open>router.getErrorShape\<close> as a function of the error (its other arguments are fixed).
\<close>

datatype envelope = OkEnvelope jsval | ErrorEnvelope jsval

record collaborators =
  JSON_parse :: "string \<Rightarrow> jsval option"
  input_deserialize :: "jsval \<Rightarrow> error + jsval"
  output_serialize :: "envelope \<Rightarrow> jsval"
  getErrorShape :: "error \<Rightarrow> jsval"

text \<open>
  What the handler does to its surroundings: \<^verbatim>\<open>client.send\<close> of a response (given
  before \<^verbatim>\<open>JSON.stringify\<close>), \<^verbatim>\<open>sub.destroy()\<close>, \<^verbatim>\<open>sub.start()\<close>, a call
  of the router's caller, and the rejection of the handler's own promise, which nothing
  handles.
\<close>

record response =
  res_jsonrpc :: string
  res_result :: jsval
  res_id :: jsnum

datatype action =
    Send response
  | Destroy subscription
  | Start subscription
  | CallerQuery string jsval
  | CallerMutation string jsval
  | CallerSubscription string jsval
  | UnhandledRejection error

definition respond :: "collaborators \<Rightarrow> jsnum \<Rightarrow> envelope \<Rightarrow> action" where
  "respond co id' json =
     Send \<lparr>res_jsonrpc = ''2.0'', res_result = output_serialize co json, res_id = id'\<rparr>"

text \<open>\<^verbatim>\<open>callProcedure\<close>: the call it makes on the caller.\<close>

fun callProcedure :: "procedure_type \<Rightarrow> string \<Rightarrow> jsval \<Rightarrow> action" where
  "callProcedure Query path input = CallerQuery path input"
| "callProcedure Mutation path input = CallerMutation path input"
| "callProcedure Subscription path input = CallerSubscription path input"

subsection \<open>The \<^verbatim>\<open>'close'\<close> listener\<close>

text \<open>
  One listener: \<^verbatim>\<open>for (const sub of clientSubscriptions.values()) { sub.destroy(); }
  clientSubscriptions.clear();\<close>
\<close>

definition close_listener :: "connection \<Rightarrow> connection \<times> action list" where
  "close_listener c =
     (c\<lparr>clientSubscriptions := []\<rparr>, map (\<lambda>(id', sub). Destroy sub) (clientSubscriptions c))"

text \<open>The \<^verbatim>\<open>'close'\<close> event runs every registered listener, one after the other.\<close>

fun emit_close :: "nat \<Rightarrow> connection \<Rightarrow> connection \<times> action list" where
  "emit_close 0 c = (c, [])"
| "emit_close (Suc n) c =
     (case close_listener c of
        (c', acts) \<Rightarrow> (case emit_close n c' of (c'', acts') \<Rightarrow> (c'', acts @ acts')))"

definition on_close :: "connection \<Rightarrow> connection \<times> action list" where
  "on_close c = emit_close (closeListeners c) (c\<lparr>readyState := CLOSED\<rparr>)"

subsection \<open>The \<^verbatim>\<open>'message'\<close> handler\<close>

text \<open>
  The stop request:
  \<^verbatim>\<open>clientSubscriptions.get(info.id)?.destroy(); clientSubscriptions.delete(info.id);\<close>
\<close>

definition stop_request :: "jsnum \<Rightarrow> connection \<Rightarrow> connection \<times> action list" where
  "stop_request id' c =
     (c\<lparr>clientSubscriptions := AList.delete id' (clientSubscriptions c)\<rparr>,
      case map_of (clientSubscriptions c) id' of
        None \<Rightarrow> []
      | Some sub \<Rightarrow> [Destroy sub])"

text \<open>
  The handler up to its first \<^verbatim>\<open>await\<close>: it registers one more \<^verbatim>\<open>'close'\<close>
  listener, parses the message, deserializes a defined input, and either serves a stop
  request or calls the procedure and suspends. An exception here is outside the
  \<^verbatim>\<open>try\<close> block and rejects the handler's promise.
\<close>

definition on_message :: "collaborators \<Rightarrow> jsval \<Rightarrow> connection \<Rightarrow> connection \<times> action list" where
  "on_message co message c =
     (let c1 = c\<lparr>closeListeners := Suc (closeListeners c)\<rparr> in
      case parseMessage (JSON_parse co) message of
        Inl e \<Rightarrow> (c1, [UnhandledRejection e])
      | Inr (StopInfo id') \<Rightarrow> stop_request id' c1
      | Inr (CallInfo type id' info_input path) \<Rightarrow>
          (case (if info_input \<noteq> Undefined then input_deserialize co info_input
                 else Inr Undefined) of
             Inl e \<Rightarrow> (c1, [UnhandledRejection e])
           | Inr input \<Rightarrow>
               (c1\<lparr>awaiting := awaiting c1 @ [AwaitProcedure type id' path input]\<rparr>,
                [callProcedure type path input])))"

text \<open>How an awaited call ends: with a value, with a subscription, or by throwing.\<close>

datatype settled = Returned jsval | ReturnedSubscription subscription | Threw jsval

text \<open>
  The rest of the handler. After \<^verbatim>\<open>await callProcedure(...)\<close>: the \<^verbatim>\<open>catch\<close>
  block for an exception; for a subscription the check of the socket, the check for a
  duplicate id (whose exception the \<^verbatim>\<open>catch\<close> block answers), the registration and
  the start; for any other result the response. After \<^verbatim>\<open>await sub.start()\<close>: nothing,
  or the \<^verbatim>\<open>catch\<close> block.
\<close>

fun resume :: "collaborators \<Rightarrow> suspended \<Rightarrow> settled \<Rightarrow> connection \<Rightarrow> connection \<times> action list" where
  "resume co (AwaitProcedure type id' path input) (Threw e) c =
     (c, [respond co id' (ErrorEnvelope (getErrorShape co (Thrown e)))])"
| "resume co (AwaitProcedure type id' path input) (ReturnedSubscription sub) c =
     (if readyState c \<noteq> OPEN then (c, [Destroy sub])
      else if map_of (clientSubscriptions c) id' \<noteq> None
      then (c, [Destroy sub, respond co id' (ErrorEnvelope (getErrorShape co (DuplicateId id')))])
      else (c\<lparr>clientSubscriptions := AList.update id' sub (clientSubscriptions c),
              awaiting := awaiting c @ [AwaitStart id']\<rparr>,
            [Start sub]))"
| "resume co (AwaitProcedure type id' path input) (Returned result) c =
     (c, [respond co id' (OkEnvelope result)])"
| "resume co (AwaitStart id') (Threw e) c =
     (c, [respond co id' (ErrorEnvelope (getErrorShape co (Thrown e)))])"
| "resume co (AwaitStart id') r c = (c, [])"

text \<open>The suspended run number \<open>k\<close> is resumed with how its awaited call ended.\<close>

definition on_settle ::
  "collaborators \<Rightarrow> nat \<Rightarrow> settled \<Rightarrow> connection \<Rightarrow> connection \<times> action list" where
  "on_settle co k r c =
     (if k < length (awaiting c)
      then resume co (awaiting c ! k) r (c\<lparr>awaiting := take k (awaiting c) @ drop (Suc k) (awaiting c)\<rparr>)
      else (c, []))"

subsection \<open>The events of a connection\<close>

text \<open>
  A message arrives, an awaited call ends, the closing handshake begins (the socket
  leaves \<open>OPEN\<close>), or the socket closes and emits \<^verbatim>\<open>'close'\<close>. The data and
  error events of a started subscription only call \<^verbatim>\<open>respond\<close>; they read and
  write nothing of the connection's state and are not among the events.
\<close>

datatype event = Message jsval | Settle nat settled | Closing | Close

fun step :: "collaborators \<Rightarrow> event \<Rightarrow> connection \<Rightarrow> connection \<times> action list" where
  "step co (Message message) c = on_message co message c"
| "step co (Settle k r) c = on_settle co k r c"
| "step co Closing c = (if readyState c = CLOSED then (c, []) else (c\<lparr>readyState := CLOSING\<rparr>, []))"
| "step co Close c = on_close c"

fun run_events :: "collaborators \<Rightarrow> event list \<Rightarrow> connection \<Rightarrow> connection \<times> action list" where
  "run_events co [] c = (c, [])"
| "run_events co (e # es) c =
     (case step co e c of
        (c', acts) \<Rightarrow> (case run_events co es c' of (c'', acts') \<Rightarrow> (c'', acts @ acts')))"

subsection \<open>The invariant of a connection\<close>

text \<open>
  What every state of a connection satisfies: a registry entry or a suspended run means
  that a message was handled, so that a \<^verbatim>\<open>'close'\<close> listener is registered; the
  keys of the registry are distinct; and a closed socket has an empty registry.
\<close>

definition registry_inv :: "connection \<Rightarrow> bool" where
  "registry_inv c \<longleftrightarrow>
     ((clientSubscriptions c = [] \<and> awaiting c = []) \<or> 0 < closeListeners c) \<and>
     distinct (map fst (clientSubscriptions c)) \<and>
     (readyState c = CLOSED \<longrightarrow> clientSubscriptions c = [])"

section \<open>Sample collaborators\<close>

text \<open>
  The concrete collaborators of the examples below: built-ins that leave strings alone,
  a runtime with the identity transformer, no \<^verbatim>\<open>AbortController\<close> and a fetch
  that rejects on an aborted signal and otherwise answers \<^verbatim>\<open>null\<close>, a callback
  that never throws, a response transformer that passes the envelope on, and for the
  socket handler a \<^verbatim>\<open>JSON.parse\<close> that knows three texts, the identity
  transformer and an error shape that names the error.
\<close>

definition sample_js :: builtins where
  "sample_js = \<lparr>JSON_stringify = (\<lambda>v. ''json''), encodeURIComponent = id\<rparr>"

definition sample_runtime :: runtime where
  "sample_runtime =
     \<lparr>rt_serialize = id, rt_AbortController = None, rt_headers = Resolves [],
      rt_fetch =
        (\<lambda>url init. if init_signal init = Some True then Rejects (Str ''AbortError'')
                     else Resolves (Resolves Null))\<rparr>"

definition sample_prev :: "delivery \<Rightarrow> jsval option" where
  "sample_prev d = None"

definition sample_transform :: "jsval \<Rightarrow> jsval + jsval" where
  "sample_transform envelope = Inr envelope"

definition sample_parse :: \<open>string \<Rightarrow> jsval option\<close> where
  \<open>sample_parse = map_of
     [(''{"id":5,"method":"subscription","params":{"path":"posts.onAdd"}}'',
       Obj [(''id'', Num (Finite 5)), (''method'', Str ''subscription''),
            (''params'', Obj [(''path'', Str ''posts.onAdd'')])]),
      (''{"id":5,"method":"stop"}'',
       Obj [(''id'', Num (Finite 5)), (''method'', Str ''stop'')]),
      (''[1]'', Arr [Num (Finite 1)])]\<close>

definition sample_collaborators :: collaborators where
  "sample_collaborators =
     \<lparr>JSON_parse = sample_parse,
      input_deserialize = Inr,
      output_serialize =
        (\<lambda>json. case json of
           OkEnvelope data \<Rightarrow> Obj [(''ok'', Bool True), (''data'', data)]
         | ErrorEnvelope shape \<Rightarrow> Obj [(''ok'', Bool False), (''error'', shape)]),
      getErrorShape =
        (\<lambda>e. case e of DuplicateId n \<Rightarrow> Str ''Duplicate id'' | _ \<Rightarrow> Str ''Error'')\<rparr>"

section \<open>Properties\<close>

subsection \<open>The batch link\<close>

text \<open>
  C1. For a batch window of N operations: when the combined response is not an array, the
  fetcher resolves to N values, one per window entry, each of them that same response;
  when it is an array, the fetcher resolves to its elements unchanged, so element \<open>i\<close> of
  the response stands at window position \<open>i\<close>.
\<close>

theorem fetcher_degraded_or_positional:
  "(\<not> Array_isArray res \<longrightarrow>
      length (fetcher_then keyInputPairs res) = length keyInputPairs \<and>
      (\<forall>i < length keyInputPairs. fetcher_then keyInputPairs res ! i = res)) \<and>
   (\<forall>elements. res = Arr elements \<longrightarrow>
      fetcher_then keyInputPairs res = elements \<and>
      (\<forall>i < length elements. fetcher_then keyInputPairs res ! i = elements ! i))"
  by (cases res) (simp_all add: fetcher_then_def)

theorem fetcher_degraded_or_positional_witness:
  "fetcher_then
     [\<lparr>op_id = 1, op_type = Query, op_method = None, op_path = ''user.get'', op_input = Null\<rparr>,
      \<lparr>op_id = 2, op_type = Query, op_method = None, op_path = ''user.list'', op_input = Null\<rparr>]
     (Str ''single'') = [Str ''single'', Str ''single''] \<and>
   fetcher_then
     [\<lparr>op_id = 1, op_type = Query, op_method = None, op_path = ''user.get'', op_input = Null\<rparr>,
      \<lparr>op_id = 2, op_type = Query, op_method = None, op_path = ''user.list'', op_input = Null\<rparr>]
     (Arr [Str ''a'', Str ''b'']) ! 1 = Str ''b''"
proof -
  let ?ops = "[\<lparr>op_id = 1, op_type = Query, op_method = None, op_path = ''user.get'', op_input = Null\<rparr>,
      \<lparr>op_id = 2, op_type = Query, op_method = None, op_path = ''user.list'', op_input = Null\<rparr>]"
  have a: "\<not> Array_isArray (Str ''single'')" by simp
  from fetcher_degraded_or_positional [of "Str ''single''" ?ops] a
  have "length (fetcher_then ?ops (Str ''single'')) = 2"
    and "\<forall>i<2. fetcher_then ?ops (Str ''single'') ! i = Str ''single''"
    by simp_all
  then have one: "fetcher_then ?ops (Str ''single'') = [Str ''single'', Str ''single'']"
    by (simp add: list_eq_iff_nth_eq less_Suc_eq numeral_2_eq_2)
  from fetcher_degraded_or_positional [of "Arr [Str ''a'', Str ''b'']" ?ops]
  have two: "fetcher_then ?ops (Arr [Str ''a'', Str ''b'']) ! 1 = Str ''b''"
    by simp
  from one two show ?thesis by simp
qed

text \<open>
  C8. An operation whose type or dispatch method is \<open>subscription\<close> makes the stage throw
  at once: it ends with the capability error and has performed no action, so no load
  reaches a loader and no request the network. Any other operation is loaded on the
  loader of its type and dispatch method (the type when no method is given), and the
  teardown hook is registered.
\<close>

theorem subscription_fails_before_load:
  "(op_type op = Subscription \<or> op_method op = Some Subscription \<longrightarrow>
      link op = Inl SubscriptionsNotSupported \<and> filter is_Load (actions_of (link op)) = []) \<and>
   (op_type op \<noteq> Subscription \<and> op_method op \<noteq> Some Subscription \<longrightarrow>
      link op = Inr (\<lparr>isDone = False\<rparr>,
        [Load (op_type op) (case op_method op of None \<Rightarrow> op_type op | Some m \<Rightarrow> m) op, OnDestroy]))"
  by (simp add: link_def)

theorem subscription_fails_before_load_witness:
  "link \<lparr>op_id = 1, op_type = Subscription, op_method = None, op_path = ''posts.onAdd'',
         op_input = Null\<rparr> = Inl SubscriptionsNotSupported \<and>
   link \<lparr>op_id = 2, op_type = Query, op_method = Some Subscription, op_path = ''posts.onAdd'',
         op_input = Null\<rparr> = Inl SubscriptionsNotSupported \<and>
   link \<lparr>op_id = 3, op_type = Query, op_method = None, op_path = ''user.get'',
         op_input = Null\<rparr> =
     Inr (\<lparr>isDone = False\<rparr>,
          [Load Query Query \<lparr>op_id = 3, op_type = Query, op_method = None, op_path = ''user.get'',
             op_input = Null\<rparr>, OnDestroy])"
proof -
  let ?a = "\<lparr>op_id = 1, op_type = Subscription, op_method = None, op_path = ''posts.onAdd'',
         op_input = Null\<rparr>"
  let ?b = "\<lparr>op_id = 2, op_type = Query, op_method = Some Subscription, op_path = ''posts.onAdd'',
         op_input = Null\<rparr>"
  let ?c = "\<lparr>op_id = 3, op_type = Query, op_method = None, op_path = ''user.get'',
         op_input = Null\<rparr>"
  from subscription_fails_before_load [of ?a] have a: "link ?a = Inl SubscriptionsNotSupported"
    by simp
  from subscription_fails_before_load [of ?b] have b: "link ?b = Inl SubscriptionsNotSupported"
    by simp
  from subscription_fails_before_load [of ?c]
  have c: "link ?c = Inr (\<lparr>isDone = False\<rparr>, [Load Query Query ?c, OnDestroy])"
    by simp
  from a b c show ?thesis by blast
qed

lemma prevOnce_done: "isDone s \<Longrightarrow> prevOnce prev r s = (s, [], None)"
  by (simp add: prevOnce_def)

lemma prevOnce_first:
  "\<not> isDone s \<Longrightarrow> prevOnce prev r s = (s\<lparr>isDone := True\<rparr>, [Prev r], prev r)"
  by (simp add: prevOnce_def)

lemma settle_done:
  "isDone s \<Longrightarrow> fst (settle prev tr e s) = s \<and> deliveries (snd (settle prev tr e s)) = []"
  by (cases e)
    (auto simp: destroy_hook_def then_handler_def catch_handler_def prevOnce_done deliveries_def
      split: sum.splits)

lemma settle_first:
  "\<not> isDone s \<Longrightarrow>
     isDone (fst (settle prev tr e s)) \<and> length (deliveries (snd (settle prev tr e s))) = 1"
  by (cases e)
    (auto simp: destroy_hook_def then_handler_def catch_handler_def prevOnce_first prevOnce_done
      deliveries_def split: sum.splits option.splits)

lemma settle_all_done:
  "isDone s \<Longrightarrow>
     fst (settle_all prev tr es s) = s \<and> deliveries (snd (settle_all prev tr es s)) = []"
proof (induction es arbitrary: s)
  case Nil
  then show ?case by (simp add: deliveries_def)
next
  case (Cons e es)
  from settle_done [OF Cons.prems, of prev tr e]
  obtain acts where e: "settle prev tr e s = (s, acts)" and d: "deliveries acts = []"
    by (cases "settle prev tr e s") auto
  from Cons.IH [OF Cons.prems] e d show ?case
    by (auto simp: deliveries_def split: prod.splits)
qed

text \<open>
  C2. Whatever sequence of settlements reaches the stage of one operation (teardown,
  network success, network failure, in any order and number, with a callback that may
  throw), the downstream callback is called at most once, and exactly once when there is
  any settlement. Every settlement sets \<^verbatim>\<open>isDone\<close>, and once it is set no later
  settlement calls the callback: a network promise that resolves after the teardown hook
  has delivered the abort result delivers nothing.
\<close>

theorem prev_called_at_most_once:
  "length (deliveries (snd (settle_all prev tr es \<lparr>isDone = False\<rparr>))) \<le> 1 \<and>
   (es \<noteq> [] \<longrightarrow> length (deliveries (snd (settle_all prev tr es \<lparr>isDone = False\<rparr>))) = 1) \<and>
   (isDone s \<longrightarrow> deliveries (snd (settle_all prev tr es s)) = []) \<and>
   (\<forall>e. isDone (fst (settle prev tr e s)))"
proof -
  have later: "isDone s \<longrightarrow> deliveries (snd (settle_all prev tr es s)) = []" for s
    by (simp add: settle_all_done)
  have flag: "isDone (fst (settle prev tr e s))" for e
    using settle_first [of s prev tr e] settle_done [of s prev tr e] by (cases "isDone s") auto
  have one: "length (deliveries (snd (settle_all prev tr es \<lparr>isDone = False\<rparr>))) = 1" if "es \<noteq> []"
  proof -
    from that obtain e es' where es: "es = e # es'" by (cases es) auto
    obtain s' acts where e: "settle prev tr e \<lparr>isDone = False\<rparr> = (s', acts)"
      by (cases "settle prev tr e \<lparr>isDone = False\<rparr>") auto
    from settle_first [of "\<lparr>isDone = False\<rparr>" prev tr e] e
    have d: "isDone s'" and l: "length (deliveries acts) = 1" by simp_all
    from settle_all_done [OF d, of prev tr es'] es e l show ?thesis
      by (auto simp: deliveries_def split: prod.splits)
  qed
  have most: "length (deliveries (snd (settle_all prev tr es \<lparr>isDone = False\<rparr>))) \<le> 1"
    using one by (cases "es = []") (simp_all add: deliveries_def)
  from most one later flag show ?thesis by blast
qed

theorem prev_called_at_most_once_witness:
  "isDone \<lparr>isDone = True\<rparr> \<and>
   deliveries (snd (settle_all sample_prev sample_transform
      [NetworkSuccess (Str ''late'')] \<lparr>isDone = True\<rparr>)) = [] \<and>
   [Teardown, NetworkSuccess (Str ''late'')] \<noteq> [] \<and>
   length (deliveries (snd (settle_all sample_prev sample_transform
      [Teardown, NetworkSuccess (Str ''late'')] \<lparr>isDone = False\<rparr>))) = 1"
proof -
  from prev_called_at_most_once [of sample_prev sample_transform
      "[NetworkSuccess (Str ''late'')]" "\<lparr>isDone = True\<rparr>"]
  have late: "deliveries (snd (settle_all sample_prev sample_transform
      [NetworkSuccess (Str ''late'')] \<lparr>isDone = True\<rparr>)) = []"
    by simp
  from prev_called_at_most_once [of sample_prev sample_transform
      "[Teardown, NetworkSuccess (Str ''late'')]" "\<lparr>isDone = False\<rparr>"]
  have once: "length (deliveries (snd (settle_all sample_prev sample_transform
      [Teardown, NetworkSuccess (Str ''late'')] \<lparr>isDone = False\<rparr>))) = 1"
    by simp
  from late once show ?thesis by simp
qed

subsection \<open>The request executor\<close>

lemma digit_char_inj: "a < 10 \<Longrightarrow> b < 10 \<Longrightarrow> digit_char a = digit_char b \<Longrightarrow> a = b"
proof -
  assume a: "a < 10" and b: "b < 10" and e: "digit_char a = digit_char b"
  from e have "of_char (char_of (48 + a) :: char) = (of_char (char_of (48 + b) :: char) :: nat)"
    by (simp add: digit_char_def)
  then have "(48 + a) mod 256 = (48 + b) mod 256" by simp
  with a b show "a = b" by simp
qed

lemma index_key_0_1: "index_key 0 = ''0''" "index_key (Suc 0) = ''1''"
  by code_simp+

lemma index_key_nonempty: "index_key n \<noteq> []"
  by (subst index_key.simps) simp

lemma index_key_inj: "index_key n = index_key m \<Longrightarrow> n = m"
proof (induction n arbitrary: m rule: index_key.induct)
  case (1 n)
  show ?case
  proof (cases "n < 10")
    case True
    note n = this
    show ?thesis
    proof (cases "m < 10")
      case True
      with n "1.prems" show ?thesis
        by (simp add: index_key.simps [of n] index_key.simps [of m] digit_char_inj)
    next
      case False
      with n "1.prems" index_key_nonempty [of "m div 10"] show ?thesis
        by (simp add: index_key.simps [of n] index_key.simps [of m])
    qed
  next
    case False
    note n = this
    show ?thesis
    proof (cases "m < 10")
      case True
      with n "1.prems" index_key_nonempty [of "n div 10"] show ?thesis
        by (simp add: index_key.simps [of n] index_key.simps [of m])
    next
      case False
      with n "1.prems" have e: "index_key (n div 10) = index_key (m div 10)"
        and d: "digit_char (n mod 10) = digit_char (m mod 10)"
        by (simp_all add: index_key.simps [of n] index_key.simps [of m])
      from "1.IH" [OF n e] have "n div 10 = m div 10" .
      moreover from d have "n mod 10 = m mod 10" by (simp add: digit_char_inj)
      ultimately show ?thesis by (metis div_mult_mod_eq)
    qed
  qed
qed

lemma update_fresh: "k \<notin> fst ` set ps \<Longrightarrow> AList.update k v ps = ps @ [(k, v)]"
  by (induction ps) auto

lemma arrayToDict_loop_entries:
  "index \<le> length array \<Longrightarrow>
   dict = map (\<lambda>i. (index_key i, array ! i)) [0..<index] \<Longrightarrow>
   arrayToDict_loop array index dict = map (\<lambda>i. (index_key i, array ! i)) [0..<length array]"
proof (induction array index dict rule: arrayToDict_loop.induct)
  case (1 array index dict)
  show ?case
  proof (cases "index < length array")
    case True
    have fresh: "index_key index \<notin> fst ` set dict"
      using "1.prems"(2) by (auto dest: index_key_inj)
    have "set_prop dict (index_key index) (array ! index)
            = map (\<lambda>i. (index_key i, array ! i)) [0..<Suc index]"
      using "1.prems"(2) fresh by (simp add: set_prop_def update_fresh)
    with "1.IH" [OF True] True show ?thesis
      by (simp add: arrayToDict_loop.simps [of array index dict])
  next
    case False
    with "1.prems" have "index = length array" by simp
    with "1.prems"(2) show ?thesis
      by (subst arrayToDict_loop.simps) simp
  qed
qed

lemma arrayToDict_entries:
  "arrayToDict array = Obj (map (\<lambda>i. (index_key i, array ! i)) [0..<length array])"
  by (simp add: arrayToDict_def arrayToDict_loop_entries)

lemma map_of_index_keys:
  "i < n \<Longrightarrow> map_of (map (\<lambda>i. (index_key i, f i)) [0..<n]) (index_key i) = Some (f i)"
proof -
  assume "i < n"
  have "distinct (map fst (map (\<lambda>i. (index_key i, f i)) [0..<n]))"
    by (auto simp: distinct_map comp_def inj_on_def dest: index_key_inj)
  moreover have "(index_key i, f i) \<in> set (map (\<lambda>i. (index_key i, f i)) [0..<n])"
    using \<open>i < n\<close> by auto
  ultimately show ?thesis by (rule map_of_is_SomeI)
qed


text \<open>
  C7. Each input of a batched request is serialized on its own through the transformer,
  and the serialized values are packed into an object keyed by position: the key of
  position \<open>i\<close> is the decimal numeral of \<open>i\<close> and its value is the serialized input of
  operation \<open>i\<close>. The result is an object, not an array. This holds for every request
  made with \<^verbatim>\<open>inputs\<close>, which every request with more than one input is.
\<close>

theorem inputs_packed_by_index:
  "(\<forall>inputs. props_payload p = Inputs inputs \<longrightarrow>
      request_input rt p =
        Obj (map (\<lambda>i. (index_key i, rt_serialize rt (inputs ! i))) [0..<length inputs]) \<and>
      \<not> Array_isArray (request_input rt p) \<and>
      (\<forall>i < length inputs. \<exists>fields. request_input rt p = Obj fields \<and>
           get_prop fields (index_key i) = rt_serialize rt (inputs ! i))) \<and>
   (1 < input_count (props_payload p) \<longrightarrow> has_inputs (props_payload p))"
proof -
  have batch: "1 < input_count (props_payload p) \<longrightarrow> has_inputs (props_payload p)"
    by (cases "props_payload p") simp_all
  have dict: "request_input rt p =
        Obj (map (\<lambda>i. (index_key i, rt_serialize rt (inputs ! i))) [0..<length inputs])"
    if "props_payload p = Inputs inputs" for inputs
    using that by (simp add: request_input_def arrayToDict_entries cong: map_cong)
  have look: "get_prop (map (\<lambda>i. (index_key i, rt_serialize rt (inputs ! i))) [0..<length inputs])
                (index_key i) = rt_serialize rt (inputs ! i)"
    if "i < length inputs" for inputs i
    using map_of_index_keys [OF that, of "\<lambda>i. rt_serialize rt (inputs ! i)"]
    by (simp add: get_prop_def)
  from batch dict look show ?thesis by simp
qed

theorem inputs_packed_by_index_witness:
  "request_input sample_runtime
     (fetcher_props ''http://localhost'' Query Query
        [\<lparr>op_id = 1, op_type = Query, op_method = None, op_path = ''user.get'',
          op_input = Str ''a''\<rparr>,
         \<lparr>op_id = 2, op_type = Query, op_method = None, op_path = ''user.list'',
          op_input = Null\<rparr>])
   = Obj [(''0'', Str ''a''), (''1'', Null)]"
proof -
  let ?p = "fetcher_props ''http://localhost'' Query Query
        [\<lparr>op_id = 1, op_type = Query, op_method = None, op_path = ''user.get'',
          op_input = Str ''a''\<rparr>,
         \<lparr>op_id = 2, op_type = Query, op_method = None, op_path = ''user.list'',
          op_input = Null\<rparr>]"
  have "props_payload ?p = Inputs [Str ''a'', Null]"
    by (simp add: fetcher_props_def)
  with inputs_packed_by_index [of ?p sample_runtime] show ?thesis
    by (simp add: index_key_0_1 sample_runtime_def)
qed

text \<open>
  C6, as the code has it. In the query parts of the URL: \<open>type=<type>\<close> is present iff
  the declared type differs from the dispatch method; \<open>batch=1\<close> is present iff the
  request was made with an \<^verbatim>\<open>inputs\<close> list, whatever its length, and so whenever
  more than one input is present; \<open>input=...\<close> is
  present iff the dispatch method is \<open>query\<close> and the serialized input is defined. The
  URL is the base, a slash, the path and, when there are query parts, a question mark
  and the parts joined by \<open>&\<close>.
\<close>

theorem query_parts_presence:
  "(\<forall>s. ''type='' @ s \<in> set (queryParts js rt p) \<longleftrightarrow>
        (props_type p \<noteq> props_method p \<and> s = type_name (props_type p))) \<and>
   (''batch=1'' \<in> set (queryParts js rt p) \<longleftrightarrow> has_inputs (props_payload p)) \<and>
   (1 < input_count (props_payload p) \<longrightarrow> ''batch=1'' \<in> set (queryParts js rt p)) \<and>
   (\<forall>s. ''input='' @ s \<in> set (queryParts js rt p) \<longleftrightarrow>
        (props_method p = Query \<and> request_input rt p \<noteq> Undefined \<and>
         s = encodeURIComponent js (JSON_stringify js (request_input rt p)))) \<and>
   getUrl js rt p =
     props_url p @ ''/'' @ props_path p @
       (if queryParts js rt p = [] then [] else ''?'' @ join ''&'' (queryParts js rt p))"
proof -
  have many: "1 < input_count (props_payload p) \<longrightarrow> has_inputs (props_payload p)"
    by (cases "props_payload p") simp_all
  have parts: "(\<forall>s. ''type='' @ s \<in> set (queryParts js rt p) \<longleftrightarrow>
        (props_type p \<noteq> props_method p \<and> s = type_name (props_type p))) \<and>
   (''batch=1'' \<in> set (queryParts js rt p) \<longleftrightarrow> has_inputs (props_payload p)) \<and>
   (\<forall>s. ''input='' @ s \<in> set (queryParts js rt p) \<longleftrightarrow>
        (props_method p = Query \<and> request_input rt p \<noteq> Undefined \<and>
         s = encodeURIComponent js (JSON_stringify js (request_input rt p))))"
    by (auto simp: queryParts_def Let_def)
  have url: "getUrl js rt p =
     props_url p @ ''/'' @ props_path p @
       (if queryParts js rt p = [] then [] else ''?'' @ join ''&'' (queryParts js rt p))"
    by (simp add: getUrl_def Let_def)
  from many parts url show ?thesis by blast
qed

theorem query_parts_presence_witness:
  "1 < input_count (props_payload (fetcher_props ''http://localhost'' Query Mutation
        [\<lparr>op_id = 1, op_type = Query, op_method = Some Mutation, op_path = ''user.get'',
          op_input = Str ''a''\<rparr>,
         \<lparr>op_id = 2, op_type = Query, op_method = Some Mutation, op_path = ''user.list'',
          op_input = Null\<rparr>])) \<and>
   getUrl sample_js sample_runtime (fetcher_props ''http://localhost'' Query Mutation
        [\<lparr>op_id = 1, op_type = Query, op_method = Some Mutation, op_path = ''user.get'',
          op_input = Str ''a''\<rparr>,
         \<lparr>op_id = 2, op_type = Query, op_method = Some Mutation, op_path = ''user.list'',
          op_input = Null\<rparr>])
     = ''http://localhost/user.get,user.list?type=query&batch=1''"
proof -
  let ?p = "fetcher_props ''http://localhost'' Query Mutation
        [\<lparr>op_id = 1, op_type = Query, op_method = Some Mutation, op_path = ''user.get'',
          op_input = Str ''a''\<rparr>,
         \<lparr>op_id = 2, op_type = Query, op_method = Some Mutation, op_path = ''user.list'',
          op_input = Null\<rparr>]"
  have two: "1 < input_count (props_payload ?p)"
    by (simp add: fetcher_props_def)
  have parts: "queryParts sample_js sample_runtime ?p = [''type=query'', ''batch=1'']"
    by (simp add: queryParts_def fetcher_props_def)
  from query_parts_presence [of sample_js sample_runtime ?p] two
  have "''batch=1'' \<in> set (queryParts sample_js sample_runtime ?p)"
    and "getUrl sample_js sample_runtime ?p =
      props_url ?p @ ''/'' @ props_path ?p @
       (if queryParts sample_js sample_runtime ?p = [] then []
        else ''?'' @ join ''&'' (queryParts sample_js sample_runtime ?p))"
    by blast+
  with parts have "getUrl sample_js sample_runtime ?p =
      ''http://localhost/user.get,user.list?type=query&batch=1''"
    by (simp add: fetcher_props_def)
  with two show ?thesis by (rule conjI)
qed

text \<open>
  C6 as stated fails: the request that the batch link makes for a window of a single
  operation carries \<open>batch=1\<close>, though no more than one input is present.
\<close>

theorem batch_flag_counterexample:
  "''batch=1'' \<in> set (queryParts sample_js sample_runtime
      (fetcher_props ''http://localhost'' Query Query
         [\<lparr>op_id = 1, op_type = Query, op_method = None, op_path = ''user.get'',
           op_input = Null\<rparr>])) \<and>
   \<not> 1 < input_count (props_payload
      (fetcher_props ''http://localhost'' Query Query
         [\<lparr>op_id = 1, op_type = Query, op_method = None, op_path = ''user.get'',
           op_input = Null\<rparr>])) \<and>
   getUrl sample_js sample_runtime
      (fetcher_props ''http://localhost'' Query Query
         [\<lparr>op_id = 1, op_type = Query, op_method = None, op_path = ''user.get'',
           op_input = Null\<rparr>]) = ''http://localhost/user.get?batch=1&input=json''"
  by (simp add: getUrl_def queryParts_def fetcher_props_def request_input_def arrayToDict_def
      sample_js_def Let_def)

lemma cancel_times_null: "cancel_times n None = Inr None"
  by (induction n) (simp_all add: cancel_def)

lemma cancel_lets_abort_throw:
  "cancel (Some \<lparr>signal_aborted = False, abort = (\<lambda>flag. Inl thrown)\<rparr>) = Inl thrown"
  by (simp add: cancel_def)

text \<open>
  C10. Without an injected \<^verbatim>\<open>AbortController\<close> the controller is \<^verbatim>\<open>null\<close>. Any
  number of calls of \<^verbatim>\<open>cancel\<close> then returns normally (with a controller it lets
  through what \<^verbatim>\<open>abort\<close> throws) and leaves the controller \<^verbatim>\<open>null\<close>, so nothing is
  aborted. After them the request is what it is without them: \<^verbatim>\<open>rt.fetch\<close> is called
  with the URL, the method, the body and the merged headers and with no signal, and the
  promise settles as the chain does: rejected or pending with \<^verbatim>\<open>rt.headers()\<close>,
  rejected or pending with \<^verbatim>\<open>rt.fetch\<close>, and otherwise as the response's
  \<^verbatim>\<open>json()\<close> settles.
\<close>

theorem cancel_without_controller:
  assumes "rt_AbortController rt = None"
  shows "new_ac rt = None \<and>
     cancel_times n (new_ac rt) = Inr None \<and>
     (\<forall>ac. cancel_times n (new_ac rt) = Inr ac \<longrightarrow>
        fetch_init js rt p ac rawHeaders =
          \<lparr>init_method = httpMethods (props_method p),
           init_signal = None,
           init_body = getBody js rt p,
           init_headers = merge_headers rawHeaders [''content-type'' \<mapsto> ''application/json'']\<rparr> \<and>
        request_promise js rt p ac =
          (case rt_headers rt of
             Rejects e \<Rightarrow> Rejects e
           | Never \<Rightarrow> Never
           | Resolves raw \<Rightarrow>
               (case rt_fetch rt (getUrl js rt p)
                       \<lparr>init_method = httpMethods (props_method p),
                        init_signal = None,
                        init_body = getBody js rt p,
                        init_headers =
                          merge_headers raw [''content-type'' \<mapsto> ''application/json'']\<rparr> of
                  Rejects e \<Rightarrow> Rejects e
                | Never \<Rightarrow> Never
                | Resolves res \<Rightarrow> res)))"
proof -
  from assms have null: "new_ac rt = None"
    by (simp add: new_ac_def)
  then have calls: "cancel_times n (new_ac rt) = Inr None"
    by (simp add: cancel_times_null)
  have init: "fetch_init js rt p None raw =
          \<lparr>init_method = httpMethods (props_method p),
           init_signal = None,
           init_body = getBody js rt p,
           init_headers = merge_headers raw [''content-type'' \<mapsto> ''application/json'']\<rparr>" for raw
    by (simp add: fetch_init_def)
  have promise: "request_promise js rt p None =
          (case rt_headers rt of
             Rejects e \<Rightarrow> Rejects e
           | Never \<Rightarrow> Never
           | Resolves raw \<Rightarrow>
               (case rt_fetch rt (getUrl js rt p)
                       \<lparr>init_method = httpMethods (props_method p),
                        init_signal = None,
                        init_body = getBody js rt p,
                        init_headers =
                          merge_headers raw [''content-type'' \<mapsto> ''application/json'']\<rparr> of
                  Rejects e \<Rightarrow> Rejects e
                | Never \<Rightarrow> Never
                | Resolves res \<Rightarrow> res))"
    by (cases "rt_headers rt") (simp_all add: request_promise_def init)
  from null calls init [of rawHeaders] promise show ?thesis by simp
qed

theorem cancel_without_controller_witness:
  "rt_AbortController sample_runtime = None \<and>
   cancel_times 3 (new_ac sample_runtime) = Inr None \<and>
   init_signal (fetch_init sample_js sample_runtime
      \<lparr>props_url = ''http://localhost'', props_path = ''user.get'',
       props_type = Query, props_method = Query, props_payload = Inputs [Null]\<rparr>
      None []) = None \<and>
   request_promise sample_js sample_runtime
      \<lparr>props_url = ''http://localhost'', props_path = ''user.get'',
       props_type = Query, props_method = Query, props_payload = Inputs [Null]\<rparr>
      None = Resolves Null"
proof -
  let ?p = "\<lparr>props_url = ''http://localhost'', props_path = ''user.get'',
       props_type = Query, props_method = Query, props_payload = Inputs [Null]\<rparr>"
  have no: "rt_AbortController sample_runtime = None"
    by (simp add: sample_runtime_def)
  note t = cancel_without_controller [OF no, of 3 sample_js ?p "[]"]
  from t have calls: "cancel_times 3 (new_ac sample_runtime) = Inr None"
    by blast
  from t calls have init: "init_signal (fetch_init sample_js sample_runtime ?p None []) = None"
    by simp
  from t calls have "request_promise sample_js sample_runtime ?p None =
          (case rt_headers sample_runtime of
             Rejects e \<Rightarrow> Rejects e
           | Never \<Rightarrow> Never
           | Resolves raw \<Rightarrow>
               (case rt_fetch sample_runtime (getUrl sample_js sample_runtime ?p)
                       \<lparr>init_method = httpMethods (props_method ?p),
                        init_signal = None,
                        init_body = getBody sample_js sample_runtime ?p,
                        init_headers =
                          merge_headers raw [''content-type'' \<mapsto> ''application/json'']\<rparr> of
                  Rejects e \<Rightarrow> Rejects e
                | Never \<Rightarrow> Never
                | Resolves res \<Rightarrow> res))"
    by blast
  then have promise: "request_promise sample_js sample_runtime ?p None = Resolves Null"
    by (simp add: sample_runtime_def)
  from no calls init promise show ?thesis by blast
qed

subsection \<open>The socket handler\<close>

lemma assertIsObject_iff: "assertIsObject v = Inr members \<longleftrightarrow> v = Obj members"
  by (cases v) (auto simp: assertIsObject_def)

lemma assertIsObject_Inl: "assertIsObject v = Inl e \<Longrightarrow> (\<forall>members. v \<noteq> Obj members)"
  by (cases v) (auto simp: assertIsObject_def)

lemma assertIsRequestId_iff: "assertIsRequestId v = Inr n \<longleftrightarrow> v = Num n \<and> n \<noteq> NaN"
  by (cases v; cases n) (auto simp: assertIsRequestId_def split: jsnum.splits elim: isNaN.elims)

lemma assertIsString_iff: "assertIsString v = Inr s \<longleftrightarrow> v = Str s"
  by (cases v) (auto simp: assertIsString_def)

lemma assertIsProcedureType_iff:
  "(\<exists>t. assertIsProcedureType v = Inr t) \<longleftrightarrow>
     v = Str ''query'' \<or> v = Str ''mutation'' \<or> v = Str ''subscription''"
  by (auto simp: assertIsProcedureType_def)

lemma assertIsString_Str: "assertIsString (Str s) = Inr s"
  by (simp add: assertIsString_def)

lemma assertIsObject_Obj: "assertIsObject (Obj members) = Inr members"
  by (simp add: assertIsObject_def)

lemma assertIsRequestId_Num: "n \<noteq> NaN \<Longrightarrow> assertIsRequestId (Num n) = Inr n"
  by (cases n) (simp_all add: assertIsRequestId_def)

lemma assertIsProcedureType_Str:
  "assertIsProcedureType (Str ''query'') = Inr Query"
  "assertIsProcedureType (Str ''mutation'') = Inr Mutation"
  "assertIsProcedureType (Str ''subscription'') = Inr Subscription"
  by (simp_all add: assertIsProcedureType_def)

lemma parseMessage_accepted_shape:
  assumes "parseMessage parse message = Inr i"
  shows "\<exists>raw members id'.
        message = Str raw \<and> parse raw = Some (Obj members) \<and>
        get_prop members ''id'' = Num id' \<and> id' \<noteq> NaN \<and>
        (get_prop members ''method'' = Str ''stop'' \<or>
         (get_prop members ''method'' = Str ''query'' \<or>
          get_prop members ''method'' = Str ''mutation'' \<or>
          get_prop members ''method'' = Str ''subscription'') \<and>
         (\<exists>params path. get_prop members ''params'' = Obj params \<and>
            get_prop params ''path'' = Str path))"
proof -
  from assms obtain raw where m: "assertIsString message = Inr raw"
    by (auto simp: parseMessage_def split: sum.splits)
  then have message: "message = Str raw" by (simp add: assertIsString_iff)
  from assms m obtain obj where p: "parse raw = Some obj"
    by (auto simp: parseMessage_def split: option.splits)
  from assms m p obtain members where o: "assertIsObject obj = Inr members"
    by (auto simp: parseMessage_def split: sum.splits)
  then have obj: "obj = Obj members" by (simp add: assertIsObject_iff)
  from assms m p o obtain id' where r: "assertIsRequestId (get_prop members ''id'') = Inr id'"
    by (auto simp: parseMessage_def split: sum.splits)
  then have ident: "get_prop members ''id'' = Num id'" "id' \<noteq> NaN"
    by (simp_all add: assertIsRequestId_iff)
  show ?thesis
  proof (cases "get_prop members ''method'' = Str ''stop''")
    case True
    with message p obj ident show ?thesis by blast
  next
    case False
    with assms m p o r obtain t where t: "assertIsProcedureType (get_prop members ''method'') = Inr t"
      by (auto simp: parseMessage_def split: sum.splits)
    then have meth: "get_prop members ''method'' = Str ''query'' \<or>
          get_prop members ''method'' = Str ''mutation'' \<or>
          get_prop members ''method'' = Str ''subscription''"
      using assertIsProcedureType_iff by blast
    from assms m p o r False t obtain params
      where q: "assertIsObject (get_prop members ''params'') = Inr params"
      by (auto simp: parseMessage_def split: sum.splits)
    then have params: "get_prop members ''params'' = Obj params"
      by (simp add: assertIsObject_iff)
    from assms m p o r False t q obtain path
      where "assertIsString (get_prop params ''path'') = Inr path"
      by (auto simp: parseMessage_def split: sum.splits)
    then have path: "get_prop params ''path'' = Str path"
      by (simp add: assertIsString_iff)
    from message p obj ident meth params path show ?thesis by blast
  qed
qed

lemma parseMessage_stop:
  "parse raw = Some (Obj members) \<Longrightarrow> get_prop members ''id'' = Num id' \<Longrightarrow> id' \<noteq> NaN \<Longrightarrow>
   get_prop members ''method'' = Str ''stop'' \<Longrightarrow>
   parseMessage parse (Str raw) = Inr (StopInfo id')"
  by (simp add: parseMessage_def assertIsString_Str assertIsObject_Obj assertIsRequestId_Num)

lemma parseMessage_call:
  assumes p: "parse raw = Some (Obj members)"
    and i: "get_prop members ''id'' = Num id'" "id' \<noteq> NaN"
    and meth: "get_prop members ''method'' = Str ''query'' \<or>
      get_prop members ''method'' = Str ''mutation'' \<or>
      get_prop members ''method'' = Str ''subscription''"
    and q: "get_prop members ''params'' = Obj params" "get_prop params ''path'' = Str path"
  shows "\<exists>t. parseMessage parse (Str raw) = Inr (CallInfo t id' (get_prop params ''input'') path)"
proof -
  from meth obtain t where t: "assertIsProcedureType (get_prop members ''method'') = Inr t"
    using assertIsProcedureType_iff by blast
  from meth have n: "get_prop members ''method'' \<noteq> Str ''stop''" by auto
  have r: "assertIsRequestId (get_prop members ''id'') = Inr id'"
    using i by (simp add: assertIsRequestId_Num)
  have o: "assertIsObject (get_prop members ''params'') = Inr params"
    using q(1) by (simp add: assertIsObject_Obj)
  have s: "assertIsString (get_prop params ''path'') = Inr path"
    using q(2) by (simp add: assertIsString_Str)
  have "parseMessage parse (Str raw) = Inr (CallInfo t id' (get_prop params ''input'') path)"
    by (simp add: parseMessage_def assertIsString_Str assertIsObject_Obj p r n t o s)
  then show ?thesis by (rule exI [of _ t])
qed

lemma parseMessage_error_kept:
  "parseMessage (JSON_parse co) message = Inl e \<Longrightarrow>
     on_message co message c = (c\<lparr>closeListeners := Suc (closeListeners c)\<rparr>, [UnhandledRejection e])"
  by (simp add: on_message_def)

text \<open>
  C5. \<^verbatim>\<open>parseMessage\<close> accepts a message iff it is a string whose JSON decoding is a
  non-array object with a numeric id that is not NaN and either method \<open>stop\<close> (nothing
  else is looked at) or a method among \<open>query\<close>, \<open>mutation\<close>, \<open>subscription\<close> together
  with params that are an object with a string path. Any other message makes
  \<^verbatim>\<open>parseMessage\<close> throw; the error leaves the message handler as a rejected promise,
  nothing is sent or destroyed, and the registry, the socket state and the suspended
  runs stay as they were (the handler has registered its \<^verbatim>\<open>'close'\<close> listener before
  it parses, as for every message).
\<close>

theorem parseMessage_accepts_iff:
  "((\<exists>i. parseMessage (JSON_parse co) message = Inr i) \<longleftrightarrow>
     (\<exists>raw members id'.
        message = Str raw \<and> JSON_parse co raw = Some (Obj members) \<and>
        get_prop members ''id'' = Num id' \<and> id' \<noteq> NaN \<and>
        (get_prop members ''method'' = Str ''stop'' \<or>
         (get_prop members ''method'' = Str ''query'' \<or>
          get_prop members ''method'' = Str ''mutation'' \<or>
          get_prop members ''method'' = Str ''subscription'') \<and>
         (\<exists>params path. get_prop members ''params'' = Obj params \<and>
            get_prop params ''path'' = Str path)))) \<and>
   ((\<forall>i. parseMessage (JSON_parse co) message \<noteq> Inr i) \<longrightarrow>
     (\<exists>e. parseMessage (JSON_parse co) message = Inl e \<and>
          on_message co message c =
            (c\<lparr>closeListeners := Suc (closeListeners c)\<rparr>, [UnhandledRejection e])))"
proof (intro conjI iffI impI)
  assume "\<exists>i. parseMessage (JSON_parse co) message = Inr i"
  then show "\<exists>raw members id'.
        message = Str raw \<and> JSON_parse co raw = Some (Obj members) \<and>
        get_prop members ''id'' = Num id' \<and> id' \<noteq> NaN \<and>
        (get_prop members ''method'' = Str ''stop'' \<or>
         (get_prop members ''method'' = Str ''query'' \<or>
          get_prop members ''method'' = Str ''mutation'' \<or>
          get_prop members ''method'' = Str ''subscription'') \<and>
         (\<exists>params path. get_prop members ''params'' = Obj params \<and>
            get_prop params ''path'' = Str path))"
    using parseMessage_accepted_shape by blast
next
  assume "\<exists>raw members id'.
        message = Str raw \<and> JSON_parse co raw = Some (Obj members) \<and>
        get_prop members ''id'' = Num id' \<and> id' \<noteq> NaN \<and>
        (get_prop members ''method'' = Str ''stop'' \<or>
         (get_prop members ''method'' = Str ''query'' \<or>
          get_prop members ''method'' = Str ''mutation'' \<or>
          get_prop members ''method'' = Str ''subscription'') \<and>
         (\<exists>params path. get_prop members ''params'' = Obj params \<and>
            get_prop params ''path'' = Str path))"
  then obtain raw members id' where shape: "message = Str raw"
      "JSON_parse co raw = Some (Obj members)" "get_prop members ''id'' = Num id'" "id' \<noteq> NaN"
    and rest: "get_prop members ''method'' = Str ''stop'' \<or>
         (get_prop members ''method'' = Str ''query'' \<or>
          get_prop members ''method'' = Str ''mutation'' \<or>
          get_prop members ''method'' = Str ''subscription'') \<and>
         (\<exists>params path. get_prop members ''params'' = Obj params \<and>
            get_prop params ''path'' = Str path)"
    by blast
  from rest show "\<exists>i. parseMessage (JSON_parse co) message = Inr i"
  proof
    assume "get_prop members ''method'' = Str ''stop''"
    from parseMessage_stop [of "JSON_parse co" raw members id', OF shape(2-4) this] shape(1) show ?thesis by blast
  next
    assume call: "(get_prop members ''method'' = Str ''query'' \<or>
          get_prop members ''method'' = Str ''mutation'' \<or>
          get_prop members ''method'' = Str ''subscription'') \<and>
         (\<exists>params path. get_prop members ''params'' = Obj params \<and>
            get_prop params ''path'' = Str path)"
    then obtain params path where pp: "get_prop members ''params'' = Obj params"
        "get_prop params ''path'' = Str path"
      by blast
    from call have meth: "get_prop members ''method'' = Str ''query'' \<or>
          get_prop members ''method'' = Str ''mutation'' \<or>
          get_prop members ''method'' = Str ''subscription''" ..
    from parseMessage_call [of "JSON_parse co" raw members id' params path, OF shape(2-4) meth pp] shape(1) show ?thesis by blast
  qed
next
  assume "\<forall>i. parseMessage (JSON_parse co) message \<noteq> Inr i"
  then obtain e where "parseMessage (JSON_parse co) message = Inl e"
    by (cases "parseMessage (JSON_parse co) message") auto
  then show "\<exists>e. parseMessage (JSON_parse co) message = Inl e \<and>
          on_message co message c =
            (c\<lparr>closeListeners := Suc (closeListeners c)\<rparr>, [UnhandledRejection e])"
    using parseMessage_error_kept by blast
qed


lemmas sample_eval =
  sample_collaborators_def sample_parse_def parseMessage_def assertIsString_def
  assertIsObject_def assertIsRequestId_def assertIsProcedureType_def get_prop_def

theorem parseMessage_accepts_iff_witness:
  \<open>(\<exists>i. parseMessage (JSON_parse sample_collaborators) (Str ''{"id":5,"method":"stop"}'') = Inr i) \<and>
   on_message sample_collaborators (Str ''[1]'') new_connection =
     (new_connection\<lparr>closeListeners := Suc (closeListeners new_connection)\<rparr>,
      [UnhandledRejection NotAnObject])\<close>
proof -
  have shape: \<open>\<exists>raw members id'.
        Str ''{"id":5,"method":"stop"}'' = Str raw \<and>
        JSON_parse sample_collaborators raw = Some (Obj members) \<and>
        get_prop members ''id'' = Num id' \<and> id' \<noteq> NaN \<and>
        (get_prop members ''method'' = Str ''stop'' \<or>
         (get_prop members ''method'' = Str ''query'' \<or>
          get_prop members ''method'' = Str ''mutation'' \<or>
          get_prop members ''method'' = Str ''subscription'') \<and>
         (\<exists>params path. get_prop members ''params'' = Obj params \<and>
            get_prop params ''path'' = Str path))\<close>
    by (simp add: sample_collaborators_def sample_parse_def get_prop_def)
  from parseMessage_accepts_iff [of sample_collaborators \<open>Str ''{"id":5,"method":"stop"}''\<close> new_connection]
    shape
  have accepted: \<open>\<exists>i. parseMessage (JSON_parse sample_collaborators) (Str ''{"id":5,"method":"stop"}'') = Inr i\<close>
    by (simp only:)
  have bad: "parseMessage (JSON_parse sample_collaborators) (Str ''[1]'') = Inl NotAnObject"
    by (simp add: sample_eval)
  then have "\<forall>i. parseMessage (JSON_parse sample_collaborators) (Str ''[1]'') \<noteq> Inr i"
    by simp
  with parseMessage_accepts_iff [of sample_collaborators "Str ''[1]''" new_connection]
  obtain e where "parseMessage (JSON_parse sample_collaborators) (Str ''[1]'') = Inl e"
    and "on_message sample_collaborators (Str ''[1]'') new_connection =
          (new_connection\<lparr>closeListeners := Suc (closeListeners new_connection)\<rparr>,
           [UnhandledRejection e])"
    by blast
  with bad have rejected: "on_message sample_collaborators (Str ''[1]'') new_connection =
     (new_connection\<lparr>closeListeners := Suc (closeListeners new_connection)\<rparr>,
      [UnhandledRejection NotAnObject])"
    by simp
  from accepted rejected show ?thesis by (rule conjI)
qed

lemma delete_absent: "map_of al k = None \<Longrightarrow> AList.delete k al = al"
  by (simp add: map_of_eq_None_iff)

text \<open>
  C9. A stop message for an id with a registry entry destroys that entry's subscription
  and removes the entry. A stop message for an id without an entry, a second stop after
  the first included, destroys nothing, sends nothing and throws nothing, and leaves the
  registry, the socket state and the suspended runs as they were; as every message does,
  it registers one more \<^verbatim>\<open>'close'\<close> listener.
\<close>

theorem stop_message:
  assumes stop: "parseMessage (JSON_parse co) message = Inr (StopInfo id')"
  shows "(\<forall>sub. map_of (clientSubscriptions c) id' = Some sub \<longrightarrow>
            on_message co message c =
              (c\<lparr>closeListeners := Suc (closeListeners c),
                 clientSubscriptions := AList.delete id' (clientSubscriptions c)\<rparr>,
               [Destroy sub]) \<and>
            map_of (AList.delete id' (clientSubscriptions c)) id' = None) \<and>
         (map_of (clientSubscriptions c) id' = None \<longrightarrow>
            stop_request id' c = (c, []) \<and>
            on_message co message c = (c\<lparr>closeListeners := Suc (closeListeners c)\<rparr>, [])) \<and>
         snd (on_message co message (fst (on_message co message c))) = []"
proof -
  have gone: "map_of (AList.delete id' al) id' = None" for al :: "(jsnum \<times> subscription) list"
    by (simp add: AList.delete_conv')
  have live: "on_message co message c =
              (c\<lparr>closeListeners := Suc (closeListeners c),
                 clientSubscriptions := AList.delete id' (clientSubscriptions c)\<rparr>,
               [Destroy sub])"
    if "map_of (clientSubscriptions c) id' = Some sub" for sub c
    using stop that by (simp add: on_message_def stop_request_def)
  have none: "on_message co message c = (c\<lparr>closeListeners := Suc (closeListeners c)\<rparr>, [])"
    if "map_of (clientSubscriptions c) id' = None" for c
    using stop that by (simp add: on_message_def stop_request_def delete_absent)
  have after: "map_of (clientSubscriptions (fst (on_message co message c))) id' = None"
    using stop gone by (simp add: on_message_def stop_request_def)
  from none [OF after] have again: "snd (on_message co message (fst (on_message co message c))) = []"
    by simp
  have request: "stop_request id' c = (c, [])" if "map_of (clientSubscriptions c) id' = None"
    using that by (simp add: stop_request_def delete_absent)
  from gone live none request again show ?thesis by blast
qed

theorem stop_message_witness:
  \<open>on_message sample_collaborators (Str ''{"id":5,"method":"stop"}'')
     \<lparr>clientSubscriptions = [(Finite 5, 1)], closeListeners = 1, readyState = OPEN,
      awaiting = [AwaitStart (Finite 5)]\<rparr> =
     (\<lparr>clientSubscriptions = [], closeListeners = 2, readyState = OPEN,
       awaiting = [AwaitStart (Finite 5)]\<rparr>, [Destroy 1]) \<and>
   on_message sample_collaborators (Str ''{"id":5,"method":"stop"}'')
     \<lparr>clientSubscriptions = [], closeListeners = 2, readyState = OPEN,
      awaiting = [AwaitStart (Finite 5)]\<rparr> =
     (\<lparr>clientSubscriptions = [], closeListeners = 3, readyState = OPEN,
       awaiting = [AwaitStart (Finite 5)]\<rparr>, [])\<close>
proof -
  have stop: \<open>parseMessage (JSON_parse sample_collaborators) (Str ''{"id":5,"method":"stop"}'') =
      Inr (StopInfo (Finite 5))\<close>
    by (simp add: sample_eval)
  let ?c = "\<lparr>clientSubscriptions = [(Finite 5, 1)], closeListeners = 1, readyState = OPEN,
      awaiting = [AwaitStart (Finite 5)]\<rparr>"
  let ?d = "\<lparr>clientSubscriptions = [], closeListeners = 2, readyState = OPEN,
      awaiting = [AwaitStart (Finite 5)]\<rparr>"
  from stop_message [OF stop, of ?c] have first:
    \<open>on_message sample_collaborators (Str ''{"id":5,"method":"stop"}'') ?c = (?d, [Destroy 1])\<close>
    by simp
  from stop_message [OF stop, of ?d] have second:
    \<open>on_message sample_collaborators (Str ''{"id":5,"method":"stop"}'') ?d =
       (?d\<lparr>closeListeners := 3\<rparr>, [])\<close>
    by simp
  from first second show ?thesis by simp
qed



lemma clear_empty: "clientSubscriptions c = [] \<Longrightarrow> c\<lparr>clientSubscriptions := []\<rparr> = c"
  by (cases c) simp

lemma emit_close_empty:
  "clientSubscriptions c = [] \<Longrightarrow> emit_close n c = (c, [])"
  by (induction n) (simp_all add: close_listener_def clear_empty)

lemma emit_close_Suc:
  "emit_close (Suc n) c =
     (c\<lparr>clientSubscriptions := []\<rparr>, map (\<lambda>(id', sub). Destroy sub) (clientSubscriptions c))"
  by (simp add: close_listener_def emit_close_empty [of "c\<lparr>clientSubscriptions := []\<rparr>" n])

lemma registry_inv_new: "registry_inv new_connection"
  by (simp add: registry_inv_def new_connection_def)

lemma on_message_frame:
  "closeListeners (fst (on_message co message c)) = Suc (closeListeners c) \<and>
   readyState (fst (on_message co message c)) = readyState c \<and>
   (clientSubscriptions (fst (on_message co message c)) = clientSubscriptions c \<or>
    (\<exists>id'. clientSubscriptions (fst (on_message co message c)) =
       AList.delete id' (clientSubscriptions c)))"
  by (auto simp: on_message_def stop_request_def Let_def split: sum.splits info.splits)

lemma resume_frame:
  "closeListeners (fst (resume co s r c)) = closeListeners c \<and>
   readyState (fst (resume co s r c)) = readyState c \<and>
   (clientSubscriptions (fst (resume co s r c)) = clientSubscriptions c \<or>
    readyState c = OPEN \<and>
    (\<exists>id' sub. clientSubscriptions (fst (resume co s r c)) =
       AList.update id' sub (clientSubscriptions c)))"
  by (cases "(co, s, r, c)" rule: resume.cases) auto

lemma on_settle_frame:
  "closeListeners (fst (on_settle co k r c)) = closeListeners c \<and>
   readyState (fst (on_settle co k r c)) = readyState c \<and>
   (clientSubscriptions (fst (on_settle co k r c)) = clientSubscriptions c \<or>
    readyState c = OPEN \<and> k < length (awaiting c) \<and>
    (\<exists>id' sub. clientSubscriptions (fst (on_settle co k r c)) =
       AList.update id' sub (clientSubscriptions c)))"
proof (cases "k < length (awaiting c)")
  case True
  let ?d = "c\<lparr>awaiting := take k (awaiting c) @ drop (Suc k) (awaiting c)\<rparr>"
  from resume_frame [of co "awaiting c ! k" r ?d] True show ?thesis
    by (simp add: on_settle_def)
next
  case False
  then show ?thesis by (simp add: on_settle_def)
qed

lemma on_close_eq:
  assumes "registry_inv c"
  shows "on_close c =
     (c\<lparr>readyState := CLOSED, clientSubscriptions := []\<rparr>,
      map (\<lambda>(id', sub). Destroy sub) (clientSubscriptions c))"
proof (cases "closeListeners c")
  case 0
  with assms have "clientSubscriptions c = []" by (simp add: registry_inv_def)
  with 0 show ?thesis by (simp add: on_close_def)
next
  case (Suc n)
  then show ?thesis by (simp only: on_close_def emit_close_Suc) simp
qed

lemma registry_inv_step:
  assumes inv: "registry_inv c"
  shows "registry_inv (fst (step co e c))"
proof (cases e)
  case (Message message)
  from on_message_frame [of co message c] inv Message show ?thesis
    by (auto simp: registry_inv_def AList.distinct_delete)
next
  case (Settle k r)
  from on_settle_frame [of co k r c]
  consider (same) "closeListeners (fst (on_settle co k r c)) = closeListeners c"
      "readyState (fst (on_settle co k r c)) = readyState c"
      "clientSubscriptions (fst (on_settle co k r c)) = clientSubscriptions c"
      "k < length (awaiting c) \<or> on_settle co k r c = (c, [])"
    | (registered) id' sub where "closeListeners (fst (on_settle co k r c)) = closeListeners c"
      "readyState (fst (on_settle co k r c)) = readyState c"
      "readyState c = OPEN" "k < length (awaiting c)"
      "clientSubscriptions (fst (on_settle co k r c)) = AList.update id' sub (clientSubscriptions c)"
    by (cases "k < length (awaiting c)") (auto simp: on_settle_def)
  then show ?thesis
  proof cases
    case same
    from same(4) show ?thesis
    proof
      assume "k < length (awaiting c)"
      then have "awaiting c \<noteq> []" by auto
      with inv have "0 < closeListeners c" by (simp add: registry_inv_def)
      with same(1-3) inv Settle show ?thesis by (simp add: registry_inv_def)
    next
      assume "on_settle co k r c = (c, [])"
      with inv Settle show ?thesis by simp
    qed
  next
    case registered
    from registered(4) have "awaiting c \<noteq> []" by auto
    with inv have "0 < closeListeners c" by (simp add: registry_inv_def)
    with registered inv Settle show ?thesis
      by (simp add: registry_inv_def AList.distinct_update)
  qed
next
  case Closing
  with inv show ?thesis by (auto simp: registry_inv_def)
next
  case Close
  with inv on_close_eq [OF inv] show ?thesis by (auto simp: registry_inv_def)
qed

lemma registry_inv_run: "registry_inv c \<Longrightarrow> registry_inv (fst (run_events co es c))"
proof (induction es arbitrary: c)
  case Nil
  then show ?case by simp
next
  case (Cons e es)
  from registry_inv_step [OF Cons.prems, of co e] have "registry_inv (fst (step co e c))" .
  from Cons.IH [OF this] show ?case
    by (cases "step co e c"; cases "run_events co es (fst (step co e c))") simp
qed

lemma closed_step: "readyState c = CLOSED \<Longrightarrow> readyState (fst (step co e c)) = CLOSED"
proof (cases e)
  case (Message message)
  assume "readyState c = CLOSED"
  with Message on_message_frame [of co message c] show ?thesis by simp
next
  case (Settle k r)
  assume "readyState c = CLOSED"
  with Settle on_settle_frame [of co k r c] show ?thesis by simp
next
  case Closing
  assume "readyState c = CLOSED"
  with Closing show ?thesis by simp
next
  case Close
  have "readyState (fst (emit_close n d)) = readyState d" for n d
    by (cases n) (simp_all only: emit_close_Suc emit_close.simps, simp_all)
  with Close show ?thesis by (simp add: on_close_def)
qed

lemma closed_run: "readyState c = CLOSED \<Longrightarrow> readyState (fst (run_events co es c)) = CLOSED"
proof (induction es arbitrary: c)
  case Nil
  then show ?case by simp
next
  case (Cons e es)
  from closed_step [OF Cons.prems, of co e] have "readyState (fst (step co e c)) = CLOSED" .
  from Cons.IH [OF this] show ?case
    by (cases "step co e c"; cases "run_events co es (fst (step co e c))") simp
qed

text \<open>
  C3. In every state a connection reaches, after any events and so after any number of
  messages, the \<^verbatim>\<open>'close'\<close> event makes exactly one destroy call per registry entry
  (the keys are distinct, so one per subscription id) and leaves the registry empty. A
  second \<^verbatim>\<open>'close'\<close> event makes no destroy call, whether it follows at once or after
  further events.
\<close>

theorem close_destroys_each_once:
  assumes "c = fst (run_events co es new_connection)"
  shows "snd (on_close c) = map (\<lambda>(id', sub). Destroy sub) (clientSubscriptions c) \<and>
         distinct (map fst (clientSubscriptions c)) \<and>
         clientSubscriptions (fst (on_close c)) = [] \<and>
         snd (on_close (fst (on_close c))) = [] \<and>
         snd (on_close (fst (run_events co later (fst (on_close c))))) = []"
proof -
  have inv: "registry_inv c"
    unfolding assms using registry_inv_new by (rule registry_inv_run)
  note closed = on_close_eq [OF inv]
  from registry_inv_step [OF inv, of co Close] have inv': "registry_inv (fst (on_close c))"
    by simp
  from closed have st: "readyState (fst (on_close c)) = CLOSED" by simp
  have quiet: "snd (on_close d) = []" if "registry_inv d" "readyState d = CLOSED" for d
    using on_close_eq [OF that(1)] that by (simp add: registry_inv_def)
  from quiet [OF inv' st] have second: "snd (on_close (fst (on_close c))) = []" .
  from quiet [OF registry_inv_run [OF inv', of co later] closed_run [OF st, of co later]]
  have after: "snd (on_close (fst (run_events co later (fst (on_close c))))) = []" .
  from inv have d: "distinct (map fst (clientSubscriptions c))"
    by (simp add: registry_inv_def)
  from closed d second after show ?thesis by simp
qed


theorem close_destroys_each_once_witness:
  \<open>fst (run_events sample_collaborators
      [Message (Str ''{"id":5,"method":"subscription","params":{"path":"posts.onAdd"}}''),
       Settle 0 (ReturnedSubscription 1),
       Message (Str ''[1]'')] new_connection) =
     \<lparr>clientSubscriptions = [(Finite 5, 1)], closeListeners = 2, readyState = OPEN,
      awaiting = [AwaitStart (Finite 5)]\<rparr> \<and>
   on_close \<lparr>clientSubscriptions = [(Finite 5, 1)], closeListeners = 2, readyState = OPEN,
      awaiting = [AwaitStart (Finite 5)]\<rparr> =
     (\<lparr>clientSubscriptions = [], closeListeners = 2, readyState = CLOSED,
       awaiting = [AwaitStart (Finite 5)]\<rparr>, [Destroy 1]) \<and>
   snd (on_close \<lparr>clientSubscriptions = [], closeListeners = 2, readyState = CLOSED,
       awaiting = [AwaitStart (Finite 5)]\<rparr>) = []\<close>
proof -
  let ?es = \<open>[Message (Str ''{"id":5,"method":"subscription","params":{"path":"posts.onAdd"}}''),
       Settle 0 (ReturnedSubscription 1),
       Message (Str ''[1]'')]\<close>
  let ?c = "\<lparr>clientSubscriptions = [(Finite 5, 1)], closeListeners = 2, readyState = OPEN,
      awaiting = [AwaitStart (Finite 5)]\<rparr>"
  let ?d = "\<lparr>clientSubscriptions = [], closeListeners = 2, readyState = CLOSED,
       awaiting = [AwaitStart (Finite 5)]\<rparr>"
  have run: "?c = fst (run_events sample_collaborators ?es new_connection)"
    by (simp add: sample_eval on_message_def stop_request_def on_settle_def new_connection_def)
  note t = close_destroys_each_once [OF run, of "[]"]
  from t have acts: "snd (on_close ?c) = [Destroy 1]" by simp
  from t have "clientSubscriptions (fst (on_close ?c)) = []" by simp
  moreover have "fst (on_close ?c) = ?d"
    by (simp add: on_close_def close_listener_def numeral_2_eq_2)
  ultimately have closed: "on_close ?c = (?d, [Destroy 1])"
    using acts by (simp add: prod_eq_iff)
  from t closed have again: "snd (on_close ?d) = []" by simp
  from run closed again show ?thesis by simp
qed

end
